theory Spec2Isabelle
  imports Main "HOL-Library.Sublist"
begin

text \<open>
  The notebooks of the repository drive hosted services; three pieces of them have logic
  of their own and are modelled here: the tool-use loop \<open>chatbot_interaction\<close> of
  \<open>agent_rag.ipynb\<close> with its tool dispatcher and conversation manager, the router
  \<open>route_question\<close> of \<open>langchain.ipynb\<close>, and the chunker
  \<open>chunk_text_by_tokens\<close> of the vector-store notebook. The hosted services (chat
  model, router model, vector search, tokenizer) are parameters.
\<close>

section \<open>Python values, exceptions and messages\<close>

text \<open>
  The notebooks pass JSON-like Python values around: tool inputs are dicts decoded from the
  model's reply, tool results are lists and dicts of strings. A dict is an association list
  (its keys are distinct; lookup is \<open>map_of\<close>).
\<close>

datatype pyval =
    PyNone
  | PyBool bool
  | PyInt int
  | PyStr string
  | PyList "pyval list"
  | PyDict "(string \<times> pyval) list"

type_synonym pydict = "(string \<times> pyval) list"

text \<open>
  Exceptions are values. \<open>KeyError k\<close> is raised by \<open>d[k]\<close> on a missing key,
  \<open>StopIteration\<close> by \<open>next(...)\<close> on an exhausted generator, \<open>IndexError\<close> by
  \<open>xs[-1]\<close> on an empty list; \<open>ServiceError\<close> stands for whatever a hosted service
  (embedding, vector search, chat completion) raises.
\<close>

datatype error = KeyError string | StopIteration | IndexError | ServiceError string

definition getitem :: "pydict \<Rightarrow> string \<Rightarrow> error + pyval" where
  "getitem d k = (case map_of d k of None \<Rightarrow> Inl (KeyError k) | Some v \<Rightarrow> Inr v)"

text \<open>
  \<open>str(v)\<close> and \<open>repr(v)\<close> as Python computes them on these values. A string is
  the list of its code points, each below 256. \<open>repr\<close> of a string picks the double
  quote when the string has a single quote and no double quote, escapes the quote, the
  backslash, tab, newline and carriage return, and writes the other non-printable code
  points as \<open>\xhh\<close>. Floating-point numbers are not among the values.
\<close>

fun digits :: "nat \<Rightarrow> string" where
  "digits n =
     (if n < 10 then [''0123456789'' ! n]
      else digits (n div 10) @ [''0123456789'' ! (n mod 10)])"

declare digits.simps [simp del]

definition hex_digit :: "nat \<Rightarrow> char" where
  "hex_digit n = ''0123456789abcdef'' ! n"

definition printable :: "char \<Rightarrow> bool" where
  "printable c =
     (let n = (of_char c :: nat)
      in 32 \<le> n \<and> n \<noteq> 127 \<and> \<not> (128 \<le> n \<and> n \<le> 160) \<and> n \<noteq> 173)"

definition escape_char :: "char \<Rightarrow> char \<Rightarrow> string" where
  "escape_char quote c =
     (if c = quote \<or> c = CHR 0x5C then [CHR 0x5C, c]
      else if c = CHR 0x09 then [CHR 0x5C, CHR ''t'']
      else if c = CHR 0x0A then [CHR 0x5C, CHR ''n'']
      else if c = CHR 0x0D then [CHR 0x5C, CHR ''r'']
      else if printable c then [c]
      else [CHR 0x5C, CHR ''x'',
            hex_digit ((of_char c :: nat) div 16), hex_digit ((of_char c :: nat) mod 16)])"

definition repr_str :: "string \<Rightarrow> string" where
  "repr_str s =
     (let quote = (if CHR 0x27 \<in> set s \<and> CHR 0x22 \<notin> set s then CHR 0x22 else CHR 0x27)
      in [quote] @ concat (map (escape_char quote) s) @ [quote])"

fun join :: "string \<Rightarrow> string list \<Rightarrow> string" where
  "join sep [] = []"
| "join sep [x] = x"
| "join sep (x # y # ys) = x @ sep @ join sep (y # ys)"

fun py_repr :: "pyval \<Rightarrow> string" where
  "py_repr PyNone = ''None''"
| "py_repr (PyBool b) = (if b then ''True'' else ''False'')"
| "py_repr (PyInt i) = (if i < 0 then ''-'' @ digits (nat (- i)) else digits (nat i))"
| "py_repr (PyStr s) = repr_str s"
| "py_repr (PyList xs) = ''['' @ join '', '' (map py_repr xs) @ '']''"
| "py_repr (PyDict kvs) =
     ''{'' @ join '', '' (map (\<lambda>(k, v). repr_str k @ '': '' @ py_repr v) kvs) @ ''}''"

fun py_str :: "pyval \<Rightarrow> string" where
  "py_str (PyStr s) = s"
| "py_str v = py_repr v"

text \<open>
  Content blocks of the chat API: \<open>block.type == "tool_use"\<close> holds of a tool-use block
  only, and only a text block has the attribute \<open>text\<close>.
\<close>

datatype content_block =
    TextBlock (block_text: string)
  | ToolUseBlock (block_id: string) (block_name: string) (block_input: pydict)
  | ToolResultBlock (tool_use_id: string) (result_content: string)

fun is_tool_use :: "content_block \<Rightarrow> bool" where
  "is_tool_use (ToolUseBlock i n inp) = True"
| "is_tool_use b = False"

fun has_text :: "content_block \<Rightarrow> bool" where
  "has_text (TextBlock t) = True"
| "has_text b = False"

datatype msg_content = Text string | Blocks "content_block list"

record message =
  role :: string
  content :: msg_content

record response =
  stop_reason :: string
  response_content :: "content_block list"

section \<open>The tools of \<open>agent_rag.ipynb\<close>\<close>

definition slots :: pyval where
  "slots = PyList [PyStr ''10:00-12:00'', PyStr ''12:00-14:00'', PyStr ''14:00-16:00'']"

definition check_vet_availability :: pyval where
  "check_vet_availability =
     PyDict [(''Monday'', slots), (''Tuesday'', slots), (''Wednesday'', slots),
             (''Thursday'', slots), (''Friday'', slots)]"

definition book_appointment :: "pyval \<Rightarrow> pyval \<Rightarrow> pyval" where
  "book_appointment day time =
     PyDict [(''status'', PyStr ''confirmed''),
             (''appointment'', PyDict [(''day'', day), (''time'', time)]),
             (''booking_reference'', PyStr ''VET123'')]"

text \<open>
  \<open>search_cat_facts\<close> only calls the embedding and the vector-search service; it is the
  parameter \<open>search\<close>, which returns the list of facts or raises (and answers a query
  the same way throughout one call of \<open>chatbot_interaction\<close>).
  \<open>process_tool_call\<close> is the \<open>if\<close>/\<open>elif\<close> cascade of the notebook: it has no
  \<open>else\<close> branch, so for any other name the function falls off its end and returns \<open>None\<close>.
\<close>

definition process_tool_call ::
  "(pyval \<Rightarrow> error + pyval) \<Rightarrow> string \<Rightarrow> pydict \<Rightarrow> error + pyval" where
  "process_tool_call search tool_name tool_input =
     (if tool_name = ''search_cat_facts'' then
        (case getitem tool_input ''query'' of
           Inl e \<Rightarrow> Inl e
         | Inr query \<Rightarrow> search query)
      else if tool_name = ''check_vet_availability'' then
        Inr check_vet_availability
      else if tool_name = ''book_appointment'' then
        (case getitem tool_input ''day'' of
           Inl e \<Rightarrow> Inl e
         | Inr day \<Rightarrow>
            (case getitem tool_input ''time'' of
               Inl e \<Rightarrow> Inl e
             | Inr time \<Rightarrow> Inr (book_appointment day time)))
      else Inr PyNone)"

text \<open>
  The second dispatcher of the repository, \<open>process_tool_call\<close> of the retrieval
  chatbot (the notebook kept in \<open>prompt-caching.md\<close>), with its \<open>else\<close> branch.
  \<open>semantic_search\<close> stands for the search with the list of matches built from its
  result, \<open>read_full_document\<close> for the file read (which catches its own exceptions).
\<close>

definition process_tool_call_rag ::
  "(pyval \<Rightarrow> error + pyval) \<Rightarrow> (pyval \<Rightarrow> pyval) \<Rightarrow> string \<Rightarrow> pydict \<Rightarrow> error + pyval" where
  "process_tool_call_rag semantic_search read_full_document tool_name tool_input =
     (if tool_name = ''search_pinecone'' then
        (case getitem tool_input ''questions_to_search'' of
           Inl e \<Rightarrow> Inl e
         | Inr questions \<Rightarrow>
            (case semantic_search questions of
               Inl e \<Rightarrow> Inl e
             | Inr matches \<Rightarrow> Inr (PyDict [(''matches'', matches)])))
      else if tool_name = ''read_full_document'' then
        (case getitem tool_input ''file_path'' of
           Inl e \<Rightarrow> Inl e
         | Inr file_path \<Rightarrow> Inr (read_full_document file_path))
      else Inr (PyStr (''Unknown tool: '' @ tool_name)))"

section \<open>Conversation management\<close>

record conversation_manager =
  conversation_history :: "message list"

definition new_manager :: conversation_manager where
  "new_manager = \<lparr>conversation_history = []\<rparr>"

definition add_message :: "conversation_manager \<Rightarrow> string \<Rightarrow> msg_content \<Rightarrow> conversation_manager" where
  "add_message cm r c =
     cm\<lparr>conversation_history := conversation_history cm @ [\<lparr>role = r, content = c\<rparr>]\<rparr>"

definition get_messages :: "conversation_manager \<Rightarrow> message list" where
  "get_messages cm = conversation_history cm"

definition clear_history :: "conversation_manager \<Rightarrow> conversation_manager" where
  "clear_history cm = cm\<lparr>conversation_history := []\<rparr>"

text \<open>
  What \<open>chatbot_interaction\<close> does to the outside world is recorded in a trace: each
  request to the chat model with the messages it sent, and each call of
  \<open>process_tool_call\<close> with its arguments. The session is the conversation manager
  (mutated in place by the notebook) together with that trace.
\<close>

datatype event = ModelCall "message list" | ToolCall string pydict

record session =
  manager :: conversation_manager
  trace :: "event list"

definition history :: "session \<Rightarrow> message list" where
  "history s = conversation_history (manager s)"

definition model_calls :: "session \<Rightarrow> nat" where
  "model_calls s = length (filter (\<lambda>e. case e of ModelCall m \<Rightarrow> True | ToolCall n i \<Rightarrow> False) (trace s))"

definition tool_calls :: "session \<Rightarrow> nat" where
  "tool_calls s = length (filter (\<lambda>e. case e of ModelCall m \<Rightarrow> False | ToolCall n i \<Rightarrow> True) (trace s))"

text \<open>
  The chat model is scripted: the list holds, in order, what each completed call of
  \<open>client.messages.create\<close> gives back, a response or an exception. When the script is
  used up the next call never answers, and the function does not return (\<open>None\<close>).
\<close>

type_synonym script = "(error + response) list"

definition log_model_call :: "session \<Rightarrow> session" where
  "log_model_call s = s\<lparr>trace := trace s @ [ModelCall (get_messages (manager s))]\<rparr>"

datatype outcome = Returned "string option" session | Raised error session

text \<open>
  One pass through the body of the \<open>while\<close> loop up to the second \<open>add_message\<close>:
  pick the first tool-use block (\<open>next\<close> without default), call \<open>process_tool_call\<close>,
  append the assistant message and the tool-result message. Nothing in the body catches
  an exception. The \<open>print\<close> calls are left out: they change nothing, and
  \<open>json.dumps\<close> accepts every value of \<open>pyval\<close>.
\<close>

definition tool_round ::
  "(pyval \<Rightarrow> error + pyval) \<Rightarrow> response \<Rightarrow> session \<Rightarrow> error \<times> session + session" where
  "tool_round search resp s =
     (case find is_tool_use (response_content resp) of
        None \<Rightarrow> Inl (StopIteration, s)
      | Some tool_use \<Rightarrow>
          (let tool_name = block_name tool_use;
               tool_input = block_input tool_use;
               s1 = s\<lparr>trace := trace s @ [ToolCall tool_name tool_input]\<rparr>
           in case process_tool_call search tool_name tool_input of
                Inl e \<Rightarrow> Inl (e, s1)
              | Inr tool_result \<Rightarrow>
                  Inr (s1\<lparr>manager :=
                         add_message
                           (add_message (manager s1) ''assistant'' (Blocks (response_content resp)))
                           ''user''
                           (Blocks [ToolResultBlock (block_id tool_use) (py_str tool_result)])\<rparr>)))"

definition final_response :: "response \<Rightarrow> string option" where
  "final_response resp = map_option block_text (find has_text (response_content resp))"

fun tool_loop ::
  "(pyval \<Rightarrow> error + pyval) \<Rightarrow> response \<Rightarrow> session \<Rightarrow> script \<Rightarrow> outcome option" where
  "tool_loop search resp s sc =
     (if stop_reason resp = ''tool_use'' then
        (case tool_round search resp s of
           Inl (e, s') \<Rightarrow> Some (Raised e s')
         | Inr s' \<Rightarrow>
            (case sc of
               [] \<Rightarrow> None
             | reply # sc' \<Rightarrow>
                (case reply of
                   Inl e \<Rightarrow> Some (Raised e (log_model_call s'))
                 | Inr resp' \<Rightarrow> tool_loop search resp' (log_model_call s') sc')))
      else Some (Returned (final_response resp) s))"

definition chatbot_interaction ::
  "(pyval \<Rightarrow> error + pyval) \<Rightarrow> string \<Rightarrow> conversation_manager option \<Rightarrow> script \<Rightarrow> outcome option" where
  "chatbot_interaction search user_message conversation_manager sc =
     (let cm = (case conversation_manager of None \<Rightarrow> new_manager | Some m \<Rightarrow> m);
          s = \<lparr>manager = add_message cm ''user'' (Text user_message), trace = []\<rparr>
      in case sc of
           [] \<Rightarrow> None
         | reply # sc' \<Rightarrow>
            (case reply of
               Inl e \<Rightarrow> Some (Raised e (log_model_call s))
             | Inr resp \<Rightarrow> tool_loop search resp (log_model_call s) sc'))"

section \<open>Notions used to state the properties of the loop\<close>

fun outcome_session :: "outcome \<Rightarrow> session" where
  "outcome_session (Returned a s) = s"
| "outcome_session (Raised e s) = s"

text \<open>
  A response completes its tool round when it holds a tool-use block and
  \<open>process_tool_call\<close> returns for the first one.
\<close>

definition completes :: "(pyval \<Rightarrow> error + pyval) \<Rightarrow> response \<Rightarrow> bool" where
  "completes search resp =
     (case find is_tool_use (response_content resp) of
        None \<Rightarrow> False
      | Some tu \<Rightarrow>
         (case process_tool_call search (block_name tu) (block_input tu) of
            Inl e \<Rightarrow> False
          | Inr v \<Rightarrow> True))"

definition tool_request :: "(pyval \<Rightarrow> error + pyval) \<Rightarrow> response \<Rightarrow> bool" where
  "tool_request search resp \<longleftrightarrow> stop_reason resp = ''tool_use'' \<and> completes search resp"

text \<open>The two messages and the executor call of a completed round.\<close>

definition round_messages :: "(pyval \<Rightarrow> error + pyval) \<Rightarrow> response \<Rightarrow> message list" where
  "round_messages search resp =
     (case find is_tool_use (response_content resp) of
        None \<Rightarrow> []
      | Some tu \<Rightarrow>
         (case process_tool_call search (block_name tu) (block_input tu) of
            Inl e \<Rightarrow> []
          | Inr v \<Rightarrow>
             [\<lparr>role = ''assistant'', content = Blocks (response_content resp)\<rparr>,
              \<lparr>role = ''user'', content = Blocks [ToolResultBlock (block_id tu) (py_str v)]\<rparr>]))"

definition round_calls :: "response \<Rightarrow> event list" where
  "round_calls resp =
     (case find is_tool_use (response_content resp) of
        None \<Rightarrow> []
      | Some tu \<Rightarrow> [ToolCall (block_name tu) (block_input tu)])"

fun is_tool_call :: "event \<Rightarrow> bool" where
  "is_tool_call (ToolCall n i) = True"
| "is_tool_call (ModelCall m) = False"

definition round_step :: "(pyval \<Rightarrow> error + pyval) \<Rightarrow> session \<Rightarrow> response \<Rightarrow> session" where
  "round_step search s resp =
     (case tool_round search resp s of
        Inl (e, s') \<Rightarrow> s'
      | Inr s' \<Rightarrow> log_model_call s')"

text \<open>
  The history a call starts from, and the session at the first request to the model:
  the user message appended, the request logged.
\<close>

definition initial_history :: "conversation_manager option \<Rightarrow> message list" where
  "initial_history cm = (case cm of None \<Rightarrow> [] | Some m \<Rightarrow> conversation_history m)"

definition start_session :: "string \<Rightarrow> conversation_manager option \<Rightarrow> session" where
  "start_session user_message cm =
     log_model_call
       \<lparr>manager = add_message (case cm of None \<Rightarrow> new_manager | Some m \<Rightarrow> m)
                    ''user'' (Text user_message),
        trace = []\<rparr>"

text \<open>
  Every list of messages sent to the model lies between the history the call started from
  and the current history.
\<close>

definition snapshots_grow :: "message list \<Rightarrow> session \<Rightarrow> bool" where
  "snapshots_grow h0 s \<longleftrightarrow>
     prefix h0 (history s) \<and>
     (\<forall>m. ModelCall m \<in> set (trace s) \<longrightarrow> prefix h0 m \<and> prefix m (history s))"

text \<open>Two stand-ins for the vector search, used to run the loop on concrete scripts.\<close>

definition search_offline :: "pyval \<Rightarrow> error + pyval" where
  "search_offline query = Inl (ServiceError ''vector index unreachable'')"

definition search_toes :: "pyval \<Rightarrow> error + pyval" where
  "search_toes query = Inr (PyList [PyStr ''Cats have five toes on each front paw.''])"

section \<open>The router of \<open>langchain.ipynb\<close>\<close>

text \<open>
  \<open>str.lower()\<close> on code points below 256: the ASCII capitals and the Latin-1 capitals
  (\<open>0xC0\<close> to \<open>0xDE\<close> without the multiplication sign \<open>0xD7\<close>) move up by 32.
\<close>

definition lower_char :: "char \<Rightarrow> char" where
  "lower_char c =
     (let n = (of_char c :: nat)
      in if (65 \<le> n \<and> n \<le> 90) \<or> (192 \<le> n \<and> n \<le> 222 \<and> n \<noteq> 215)
         then char_of (n + 32) else c)"

definition lower :: "string \<Rightarrow> string" where
  "lower s = map lower_char s"

text \<open>
  A LangChain message is reduced to its \<open>content\<close>; the state holds the list \<open>messages\<close>.
  The router model is a parameter: it answers the prompt with a message or raises.
  \<open>x in y\<close> on strings is \<open>sublist x y\<close>.
\<close>

datatype lc_message = HumanMessage (message_content: string) | AIMessage (message_content: string)

record messages_state =
  messages :: "lc_message list"

definition evaluation_prompt :: "string \<Rightarrow> string" where
  "evaluation_prompt question =
     ''Determine if the following question is about cats/felines. '' @ [CHR 0x0A] @
     ''    Question: '' @ question @ [CHR 0x0A] @
     ''    Reply with just '' @ [CHR 0x27] @ ''cat_knowledge'' @ [CHR 0x27] @ '' or '' @
     [CHR 0x27] @ ''general_knowledge'' @ [CHR 0x27] @ ''.''"

definition route_question ::
  "(lc_message list \<Rightarrow> error + lc_message) \<Rightarrow> messages_state \<Rightarrow> error + string" where
  "route_question router_model state =
     (if messages state = [] then Inl IndexError
      else
        (let question = message_content (last (messages state))
         in case router_model [HumanMessage (evaluation_prompt question)] of
              Inl e \<Rightarrow> Inl e
            | Inr reply \<Rightarrow>
                Inr (if sublist ''cat_knowledge'' (lower (message_content reply))
                     then ''cat_knowledge'' else ''general_knowledge'')))"

definition router_says :: "string \<Rightarrow> lc_message list \<Rightarrow> error + lc_message" where
  "router_says reply prompt = Inr (AIMessage reply)"

section \<open>The chunker \<open>chunk_text_by_tokens\<close>\<close>








text \<open>
  What Python prints for \<open>str(check_vet_availability())\<close>, spelled out character by
  character.
\<close>

definition quoted :: "string \<Rightarrow> string" where
  "quoted s = [CHR 0x27] @ s @ [CHR 0x27]"

definition slots_text :: string where
  "slots_text =
     ''['' @ quoted ''10:00-12:00'' @ '', '' @ quoted ''12:00-14:00'' @ '', '' @
     quoted ''14:00-16:00'' @ '']''"

definition availability_text :: string where
  "availability_text =
     ''{'' @ quoted ''Monday'' @ '': '' @ slots_text @ '', '' @
     quoted ''Tuesday'' @ '': '' @ slots_text @ '', '' @
     quoted ''Wednesday'' @ '': '' @ slots_text @ '', '' @
     quoted ''Thursday'' @ '': '' @ slots_text @ '', '' @
     quoted ''Friday'' @ '': '' @ slots_text @ ''}''"

definition booking_text :: string where
  "booking_text =
     ''{'' @ quoted ''status'' @ '': '' @ quoted ''confirmed'' @ '', '' @
     quoted ''appointment'' @ '': {'' @ quoted ''day'' @ '': '' @ quoted ''Thursday'' @ '', '' @
     quoted ''time'' @ '': '' @ quoted ''12:00-14:00'' @ ''}, '' @
     quoted ''booking_reference'' @ '': '' @ quoted ''VET123'' @ ''}''"

text \<open>Responses of the chat model used to run the loop on concrete scripts.\<close>

definition toes_request :: response where
  "toes_request =
     \<lparr>stop_reason = ''tool_use'',
      response_content =
        [TextBlock ''I will search the cat facts.'',
         ToolUseBlock ''toolu_01'' ''search_cat_facts'' [(''query'', PyStr ''toes'')]]\<rparr>"

definition toes_answer :: response where
  "toes_answer = \<lparr>stop_reason = ''end_turn'', response_content = [TextBlock ''Eighteen.'']\<rparr>"

definition pizza_request :: response where
  "pizza_request =
     \<lparr>stop_reason = ''tool_use'',
      response_content = [ToolUseBlock ''toolu_02'' ''order_pizza'' []]\<rparr>"

definition booking_without_time :: response where
  "booking_without_time =
     \<lparr>stop_reason = ''tool_use'',
      response_content = [ToolUseBlock ''toolu_03'' ''book_appointment'' [(''day'', PyStr ''Thursday'')]]\<rparr>"

definition empty_tool_request :: response where
  "empty_tool_request = \<lparr>stop_reason = ''tool_use'', response_content = [TextBlock ''Let me check.'']\<rparr>"

definition vet_request :: response where
  "vet_request =
     \<lparr>stop_reason = ''tool_use'',
      response_content =
        [ToolUseBlock ''toolu_04'' ''check_vet_availability'' [],
         ToolUseBlock ''toolu_05'' ''book_appointment''
           [(''day'', PyStr ''Thursday''), (''time'', PyStr ''12:00-14:00'')]]\<rparr>"

definition failing_first_block_request :: response where
  "failing_first_block_request =
     \<lparr>stop_reason = ''tool_use'',
      response_content =
        [ToolUseBlock ''toolu_06'' ''book_appointment'' [(''time'', PyStr ''12:00-14:00'')],
         ToolUseBlock ''toolu_07'' ''check_vet_availability'' []]\<rparr>"

definition two_texts_answer :: response where
  "two_texts_answer =
     \<lparr>stop_reason = ''end_turn'',
      response_content = [TextBlock ''Thursday is booked.'', TextBlock ''Anything else?'']\<rparr>"

definition silent_answer :: response where
  "silent_answer = \<lparr>stop_reason = ''end_turn'', response_content = []\<rparr>"

definition earlier_turn :: "message list" where
  "earlier_turn = [\<lparr>role = ''user'', content = Text ''How many toes does a cat have?''\<rparr>]"

section \<open>How the loop runs\<close>

declare tool_loop.simps [simp del]

lemma history_log_model_call: "history (log_model_call s) = history s"
  by (simp add: history_def log_model_call_def)

lemma history_add_message:
  "conversation_history (add_message cm r c) = conversation_history cm @ [\<lparr>role = r, content = c\<rparr>]"
  by (simp add: add_message_def)

lemma tool_round_completes:
  assumes "completes search resp"
  shows "\<exists>s'. tool_round search resp s = Inr s'
           \<and> history s' = history s @ round_messages search resp
           \<and> trace s' = trace s @ round_calls resp"
  using assms
  by (auto simp: completes_def tool_round_def round_messages_def round_calls_def history_def
      history_add_message Let_def split: option.splits sum.splits)

lemma tool_round_Inr:
  assumes "tool_round search resp s = Inr s'"
  shows "completes search resp \<and> history s' = history s @ round_messages search resp
           \<and> trace s' = trace s @ round_calls resp"
  using assms
  by (auto simp: completes_def tool_round_def round_messages_def round_calls_def history_def
      history_add_message Let_def split: option.splits sum.splits)

lemma tool_round_Inl:
  assumes "tool_round search resp s = Inl (e, s')"
  shows "\<not> completes search resp \<and> history s' = history s"
  using assms
  by (auto simp: completes_def tool_round_def history_def Let_def split: option.splits sum.splits)

lemma round_step_completes:
  assumes "completes search resp"
  shows "history (round_step search s resp) = history s @ round_messages search resp"
    and "trace (round_step search s resp) =
           trace s @ round_calls resp @ [ModelCall (history s @ round_messages search resp)]"
  using tool_round_completes [OF assms, of s]
  by (auto simp: round_step_def history_log_model_call log_model_call_def get_messages_def history_def)

lemma tool_loop_final:
  "stop_reason resp \<noteq> ''tool_use'' \<Longrightarrow> tool_loop search resp s sc = Some (Returned (final_response resp) s)"
  by (simp add: tool_loop.simps)

lemma tool_loop_round:
  assumes "tool_request search resp"
  shows "tool_loop search resp s (Inr resp' # sc) = tool_loop search resp' (round_step search s resp) sc"
  using assms tool_round_completes [of search resp s]
  by (subst tool_loop.simps) (auto simp: tool_request_def round_step_def)

lemma tool_loop_prefix:
  assumes "\<forall>r \<in> set tools. tool_request search r"
    and "tools @ [nxt] = r # rs"
  shows "tool_loop search r s (map Inr rs @ rest) =
           tool_loop search nxt (foldl (round_step search) s tools) rest"
  using assms
proof (induction tools arbitrary: r rs s)
  case Nil
  then show ?case by simp
next
  case (Cons t ts)
  from Cons.prems(2) have r: "r = t" and rs: "rs = ts @ [nxt]" by simp_all
  obtain r' rs' where split: "ts @ [nxt] = r' # rs'"
    by (cases "ts @ [nxt]") simp_all
  have "tool_loop search r s (map Inr rs @ rest) =
          tool_loop search r' (round_step search s t) (map Inr rs' @ rest)"
    using Cons.prems(1) by (simp add: r rs split tool_loop_round)
  also have "\<dots> = tool_loop search nxt (foldl (round_step search) (round_step search s t) ts) rest"
    using Cons.IH [OF _ split] Cons.prems(1) by simp
  finally show ?case by simp
qed

lemma foldl_round_step_history:
  assumes "\<forall>r \<in> set tools. completes search r"
  shows "history (foldl (round_step search) s tools) = history s @ concat (map (round_messages search) tools)"
  using assms
  by (induction tools arbitrary: s) (simp_all add: round_step_completes)

lemma length_round_messages:
  "completes search r \<Longrightarrow> length (round_messages search r) = 2"
  by (auto simp: completes_def round_messages_def split: option.splits sum.splits)

lemma model_calls_round_step:
  "completes search r \<Longrightarrow> model_calls (round_step search s r) = Suc (model_calls s)"
  by (auto simp: model_calls_def round_step_completes round_calls_def split: option.splits)

lemma tool_calls_round_step:
  "completes search r \<Longrightarrow> tool_calls (round_step search s r) = Suc (tool_calls s)"
  by (auto simp: tool_calls_def round_step_completes round_calls_def completes_def split: option.splits)

lemma foldl_round_step_counts:
  assumes "\<forall>r \<in> set tools. completes search r"
  shows "model_calls (foldl (round_step search) s tools) = model_calls s + length tools"
    and "tool_calls (foldl (round_step search) s tools) = tool_calls s + length tools"
  using assms
  by (induction tools arbitrary: s) (simp_all add: model_calls_round_step tool_calls_round_step)

lemma chatbot_interaction_prefix:
  assumes "\<forall>r \<in> set tools. tool_request search r"
  shows "chatbot_interaction search user_message cm (map Inr (tools @ [nxt]) @ rest) =
           tool_loop search nxt (foldl (round_step search) (start_session user_message cm) tools) rest"
proof -
  obtain r rs where split: "tools @ [nxt] = r # rs"
    by (cases "tools @ [nxt]") simp_all
  show ?thesis
    using tool_loop_prefix [OF assms split]
    by (simp add: chatbot_interaction_def split start_session_def Let_def)
qed

lemma history_start_session:
  "history (start_session user_message cm) =
     initial_history cm @ [\<lparr>role = ''user'', content = Text user_message\<rparr>]"
  by (simp add: start_session_def initial_history_def history_log_model_call)
     (simp add: history_def history_add_message new_manager_def split: option.splits)

lemma trace_start_session:
  "trace (start_session user_message cm) =
     [ModelCall (initial_history cm @ [\<lparr>role = ''user'', content = Text user_message\<rparr>])]"
  by (simp add: start_session_def initial_history_def log_model_call_def get_messages_def
      history_add_message new_manager_def split: option.splits)

lemma tool_loop_transcript:
  assumes "tool_loop search resp s sc = Some out"
  shows "\<exists>rs. prefix (map Inr rs) (Inr resp # sc) \<and> (\<forall>r \<in> set rs. tool_request search r)
           \<and> history (outcome_session out) = history s @ concat (map (round_messages search) rs)"
  using assms
proof (induction sc arbitrary: resp s)
  case Nil
  show ?case
  proof (cases "stop_reason resp = ''tool_use''")
    case False
    with Nil have "out = Returned (final_response resp) s" by (simp add: tool_loop_final)
    then show ?thesis by (intro exI [of _ "[]"]) simp
  next
    case True
    with Nil obtain e s' where "tool_round search resp s = Inl (e, s')" and "out = Raised e s'"
      by (subst (asm) tool_loop.simps) (auto split: sum.splits)
    then show ?thesis using tool_round_Inl by (intro exI [of _ "[]"]) auto
  qed
next
  case (Cons reply sc)
  show ?case
  proof (cases "stop_reason resp = ''tool_use''")
    case False
    with Cons.prems have "out = Returned (final_response resp) s" by (simp add: tool_loop_final)
    then show ?thesis by (intro exI [of _ "[]"]) simp
  next
    case True
    show ?thesis
    proof (cases "tool_round search resp s")
      case (Inl p)
      then obtain e s' where p: "tool_round search resp s = Inl (e, s')" by (cases p) auto
      with True Cons.prems have "out = Raised e s'"
        by (subst (asm) tool_loop.simps) simp
      then show ?thesis using tool_round_Inl [OF p] by (intro exI [of _ "[]"]) auto
    next
      case (Inr s')
      note round = tool_round_Inr [OF Inr]
      have req: "tool_request search resp" using True round by (simp add: tool_request_def)
      show ?thesis
      proof (cases reply)
        case (Inl e)
        with True Inr Cons.prems have "out = Raised e (log_model_call s')"
          by (subst (asm) tool_loop.simps) simp
        then show ?thesis using round req
          by (intro exI [of _ "[resp]"]) (simp add: history_log_model_call)
      next
        case reply: (Inr resp')
        with True Inr Cons.prems have "tool_loop search resp' (log_model_call s') sc = Some out"
          by (subst (asm) tool_loop.simps) simp
        from Cons.IH [OF this] obtain rs where
          rs: "prefix (map Inr rs) (Inr resp' # sc)" "\<forall>r \<in> set rs. tool_request search r"
            "history (outcome_session out) = history (log_model_call s') @ concat (map (round_messages search) rs)"
          by blast
        then show ?thesis using round req reply
          by (intro exI [of _ "resp # rs"]) (simp add: history_log_model_call)
      qed
    qed
  qed
qed

lemma tool_loop_returned:
  assumes "tool_loop search resp s sc = Some (Returned a s')"
  shows "\<exists>rs fin rest. Inr resp # sc = map Inr (rs @ [fin]) @ rest \<and> (\<forall>r \<in> set rs. tool_request search r)
           \<and> stop_reason fin \<noteq> ''tool_use'' \<and> a = final_response fin
           \<and> s' = foldl (round_step search) s rs"
  using assms
proof (induction sc arbitrary: resp s)
  case Nil
  show ?case
  proof (cases "stop_reason resp = ''tool_use''")
    case False
    with Nil have "a = final_response resp" "s' = s" by (simp_all add: tool_loop_final)
    with False show ?thesis by (intro exI [of _ "[]"] exI [of _ resp] exI [of _ "[]"]) simp
  next
    case True
    with Nil show ?thesis
      by (subst (asm) tool_loop.simps) (auto split: sum.splits)
  qed
next
  case (Cons reply sc)
  show ?case
  proof (cases "stop_reason resp = ''tool_use''")
    case False
    with Cons.prems have "a = final_response resp" "s' = s" by (simp_all add: tool_loop_final)
    with False show ?thesis by (intro exI [of _ "[]"] exI [of _ resp] exI [of _ "reply # sc"]) simp
  next
    case True
    from True Cons.prems obtain s1 resp' where
      round: "tool_round search resp s = Inr s1" and reply: "reply = Inr resp'"
      and next_call: "tool_loop search resp' (log_model_call s1) sc = Some (Returned a s')"
      by (subst (asm) tool_loop.simps) (auto split: sum.splits)
    have req: "tool_request search resp"
      using True tool_round_Inr [OF round] by (simp add: tool_request_def)
    have step: "round_step search s resp = log_model_call s1"
      using round by (simp add: round_step_def)
    from Cons.IH [OF next_call] obtain rs fin rest where
      rs: "Inr resp' # sc = map Inr (rs @ [fin]) @ rest" "\<forall>r \<in> set rs. tool_request search r"
        "stop_reason fin \<noteq> ''tool_use''" "a = final_response fin"
        "s' = foldl (round_step search) (log_model_call s1) rs"
      by blast
    then show ?thesis using req reply step
      by (intro exI [of _ "resp # rs"] exI [of _ fin] exI [of _ rest]) simp
  qed
qed


lemma chatbot_interaction_transcript:
  assumes "chatbot_interaction search user_message cm sc = Some out"
  shows "\<exists>rs. prefix (map Inr rs) sc \<and> (\<forall>r \<in> set rs. tool_request search r)
           \<and> history (outcome_session out) =
               initial_history cm @ \<lparr>role = ''user'', content = Text user_message\<rparr>
                 # concat (map (round_messages search) rs)"
proof (cases sc)
  case Nil
  with assms show ?thesis by (simp add: chatbot_interaction_def)
next
  case (Cons reply sc')
  show ?thesis
  proof (cases reply)
    case (Inl e)
    with Cons assms have "out = Raised e (start_session user_message cm)"
      by (simp add: chatbot_interaction_def start_session_def Let_def)
    then show ?thesis
      by (intro exI [of _ "[]"]) (simp add: history_start_session)
  next
    case (Inr resp)
    with Cons assms have "tool_loop search resp (start_session user_message cm) sc' = Some out"
      by (simp add: chatbot_interaction_def start_session_def Let_def)
    from tool_loop_transcript [OF this] show ?thesis
      using Cons Inr by (simp add: history_start_session)
  qed
qed

lemma chatbot_interaction_returned:
  assumes "chatbot_interaction search user_message cm sc = Some (Returned a s')"
  shows "\<exists>rs fin rest. sc = map Inr (rs @ [fin]) @ rest \<and> (\<forall>r \<in> set rs. tool_request search r)
           \<and> stop_reason fin \<noteq> ''tool_use'' \<and> a = final_response fin
           \<and> s' = foldl (round_step search) (start_session user_message cm) rs"
proof (cases sc)
  case Nil
  with assms show ?thesis by (simp add: chatbot_interaction_def)
next
  case (Cons reply sc')
  show ?thesis
  proof (cases reply)
    case (Inl e)
    with Cons assms show ?thesis
      by (simp add: chatbot_interaction_def Let_def)
  next
    case (Inr resp)
    with Cons assms have "tool_loop search resp (start_session user_message cm) sc' = Some (Returned a s')"
      by (simp add: chatbot_interaction_def start_session_def Let_def)
    from tool_loop_returned [OF this] show ?thesis
      using Cons Inr by simp
  qed
qed

lemma length_concat_round_messages:
  assumes "\<forall>r \<in> set tools. completes search r"
  shows "length (concat (map (round_messages search) tools)) = 2 * length tools"
  using assms by (induction tools) (simp_all add: length_round_messages)

lemma tool_calls_foldl_round_step:
  assumes "\<forall>r \<in> set tools. completes search r"
  shows "filter is_tool_call (trace (foldl (round_step search) s tools)) =
           filter is_tool_call (trace s) @ concat (map round_calls tools)"
  using assms
proof (induction tools arbitrary: s)
  case Nil
  show ?case by simp
next
  case (Cons t ts)
  have "filter is_tool_call (round_calls t) = round_calls t"
    using Cons.prems by (auto simp: round_calls_def completes_def split: option.splits)
  then show ?case using Cons by (simp add: round_step_completes)
qed

lemma completes_shape:
  assumes "completes search r"
  shows "\<exists>pre i n inp post v.
           response_content r = pre @ ToolUseBlock i n inp # post
         \<and> (\<forall>b \<in> set pre. \<not> is_tool_use b)
         \<and> find is_tool_use (response_content r) = Some (ToolUseBlock i n inp)
         \<and> process_tool_call search n inp = Inr v
         \<and> round_calls r = [ToolCall n inp]
         \<and> round_messages search r =
             [\<lparr>role = ''assistant'', content = Blocks (response_content r)\<rparr>,
              \<lparr>role = ''user'', content = Blocks [ToolResultBlock i (py_str v)]\<rparr>]"
proof -
  from assms obtain tu v where tu: "find is_tool_use (response_content r) = Some tu"
    and v: "process_tool_call search (block_name tu) (block_input tu) = Inr v"
    by (auto simp: completes_def split: option.splits sum.splits)
  from tu obtain k where k: "k < length (response_content r)" "is_tool_use (response_content r ! k)"
    "tu = response_content r ! k" "\<forall>j<k. \<not> is_tool_use (response_content r ! j)"
    by (auto simp: find_Some_iff)
  from k(2,3) have "is_tool_use tu" by simp
  then obtain i n inp where shape: "tu = ToolUseBlock i n inp"
    by (cases tu) simp_all
  let ?pre = "take k (response_content r)" and ?post = "drop (Suc k) (response_content r)"
  have "response_content r = ?pre @ ToolUseBlock i n inp # ?post"
    using k(1,3) shape by (simp add: id_take_nth_drop)
  moreover have "\<forall>b \<in> set ?pre. \<not> is_tool_use b"
    using k(1,4) by (auto simp: in_set_conv_nth)
  ultimately show ?thesis
    using tu v shape by (auto simp: round_calls_def round_messages_def)
qed

lemma snapshots_grow_log_model_call:
  "snapshots_grow h0 s \<Longrightarrow> snapshots_grow h0 (log_model_call s)"
  by (auto simp: snapshots_grow_def log_model_call_def history_def get_messages_def)

lemma snapshots_grow_tool_round:
  assumes "snapshots_grow h0 s"
  shows "tool_round search resp s = Inr s' \<Longrightarrow> snapshots_grow h0 s'"
    and "tool_round search resp s = Inl (e, s') \<Longrightarrow> snapshots_grow h0 s'"
proof -
  assume "tool_round search resp s = Inr s'"
  from tool_round_Inr [OF this] have
    h: "history s' = history s @ round_messages search resp" and
    t: "trace s' = trace s @ round_calls resp"
    by simp_all
  have "ModelCall m \<notin> set (round_calls resp)" for m
    by (simp add: round_calls_def split: option.splits)
  with assms show "snapshots_grow h0 s'"
    by (auto simp: snapshots_grow_def h t)
next
  assume "tool_round search resp s = Inl (e, s')"
  with assms show "snapshots_grow h0 s'"
    by (auto simp: snapshots_grow_def tool_round_def history_def Let_def split: option.splits sum.splits)
qed

lemma snapshots_grow_tool_loop:
  assumes "tool_loop search resp s sc = Some out" and "snapshots_grow h0 s"
  shows "snapshots_grow h0 (outcome_session out)"
  using assms
proof (induction sc arbitrary: resp s)
  case Nil
  show ?case
  proof (cases "stop_reason resp = ''tool_use''")
    case False
    with Nil show ?thesis by (auto simp: tool_loop_final)
  next
    case True
    with Nil(1) obtain e s' where p: "tool_round search resp s = Inl (e, s')" and "out = Raised e s'"
      by (subst (asm) tool_loop.simps) (auto split: sum.splits)
    then show ?thesis using snapshots_grow_tool_round(2) [OF Nil(2) p] by simp
  qed
next
  case (Cons reply sc)
  show ?case
  proof (cases "stop_reason resp = ''tool_use''")
    case False
    with Cons.prems show ?thesis by (auto simp: tool_loop_final)
  next
    case True
    show ?thesis
    proof (cases "tool_round search resp s")
      case (Inl p)
      then obtain e s' where p: "tool_round search resp s = Inl (e, s')" by (cases p) auto
      with True Cons.prems(1) have "out = Raised e s'"
        by (subst (asm) tool_loop.simps) simp
      then show ?thesis using snapshots_grow_tool_round(2) [OF Cons.prems(2) p] by simp
    next
      case (Inr s')
      then have grow: "snapshots_grow h0 (log_model_call s')"
        using snapshots_grow_tool_round(1) [OF Cons.prems(2)] snapshots_grow_log_model_call by blast
      show ?thesis
      proof (cases reply)
        case (Inl e)
        with True Inr Cons.prems(1) have "out = Raised e (log_model_call s')"
          by (subst (asm) tool_loop.simps) simp
        with grow show ?thesis by simp
      next
        case reply: (Inr resp')
        with True Inr Cons.prems(1) have "tool_loop search resp' (log_model_call s') sc = Some out"
          by (subst (asm) tool_loop.simps) simp
        from Cons.IH [OF this grow] show ?thesis .
      qed
    qed
  qed
qed

lemma snapshots_grow_start_session:
  "snapshots_grow (initial_history cm) (start_session user_message cm)"
  by (simp add: snapshots_grow_def history_start_session trace_start_session)

lemma snapshots_grow_chatbot_interaction:
  assumes "chatbot_interaction search user_message cm sc = Some out"
  shows "snapshots_grow (initial_history cm) (outcome_session out)"
proof (cases sc)
  case Nil
  with assms show ?thesis by (simp add: chatbot_interaction_def)
next
  case (Cons reply sc')
  show ?thesis
  proof (cases reply)
    case (Inl e)
    with Cons assms have "out = Raised e (start_session user_message cm)"
      by (simp add: chatbot_interaction_def start_session_def Let_def)
    then show ?thesis by (simp add: snapshots_grow_start_session)
  next
    case (Inr resp)
    with Cons assms have "tool_loop search resp (start_session user_message cm) sc' = Some out"
      by (simp add: chatbot_interaction_def start_session_def Let_def)
    from snapshots_grow_tool_loop [OF this snapshots_grow_start_session] show ?thesis .
  qed
qed

lemmas run_simps = chatbot_interaction_def tool_loop.simps tool_round_def process_tool_call_def
  getitem_def log_model_call_def get_messages_def add_message_def new_manager_def Let_def
  final_response_def

section \<open>Exceptions raised while a tool runs\<close>

text \<open>
  C1, as stated, fails: nothing in \<open>chatbot_interaction\<close> catches an exception. With the
  vector search unreachable, the model asks for \<open>search_cat_facts\<close> and would answer
  in its next turn; the \<open>ServiceError\<close> leaves \<open>chatbot_interaction\<close>, the history
  holds the user message only, no tool result is fed back and the second response of the
  script is never requested.
\<close>

theorem exception_propagates_counterexample:
  "chatbot_interaction search_offline ''How many toes?'' None [Inr toes_request, Inr toes_answer] =
     Some (Raised (ServiceError ''vector index unreachable'')
       \<lparr>manager = \<lparr>conversation_history = [\<lparr>role = ''user'', content = Text ''How many toes?''\<rparr>]\<rparr>,
        trace = [ModelCall [\<lparr>role = ''user'', content = Text ''How many toes?''\<rparr>],
                 ToolCall ''search_cat_facts'' [(''query'', PyStr ''toes'')]]\<rparr>)"
  by (simp add: run_simps toes_request_def toes_answer_def search_offline_def)

text \<open>
  C1, amended: in a tool round in which \<open>process_tool_call\<close> raises (after any number of
  completed rounds), \<open>chatbot_interaction\<close> does not catch the exception; it leaves the
  function with the exception, no assistant or tool-result message is appended for that
  round, and the model is not called again.
\<close>

theorem tool_exception_propagates:
  assumes "\<forall>r \<in> set tools. tool_request search r"
    and "stop_reason resp = ''tool_use''"
    and "find is_tool_use (response_content resp) = Some tu"
    and "process_tool_call search (block_name tu) (block_input tu) = Inl e"
  shows "\<exists>s'. chatbot_interaction search user_message cm (map Inr (tools @ [resp]) @ rest) = Some (Raised e s')
           \<and> history s' = initial_history cm @ \<lparr>role = ''user'', content = Text user_message\<rparr>
                             # concat (map (round_messages search) tools)
           \<and> model_calls s' = length tools + 1
           \<and> tool_calls s' = length tools + 1"
proof -
  let ?s = "foldl (round_step search) (start_session user_message cm) tools"
  let ?s' = "?s\<lparr>trace := trace ?s @ [ToolCall (block_name tu) (block_input tu)]\<rparr>"
  have compl: "\<forall>r \<in> set tools. completes search r"
    using assms(1) by (simp add: tool_request_def)
  have "tool_round search resp ?s = Inl (e, ?s')"
    using assms(3,4) by (simp add: tool_round_def Let_def)
  then have "tool_loop search resp ?s rest = Some (Raised e ?s')"
    using assms(2) by (subst tool_loop.simps) simp
  then have "chatbot_interaction search user_message cm (map Inr (tools @ [resp]) @ rest) = Some (Raised e ?s')"
    using chatbot_interaction_prefix [OF assms(1)] by simp
  moreover have "history ?s' = initial_history cm @ \<lparr>role = ''user'', content = Text user_message\<rparr>
                             # concat (map (round_messages search) tools)"
    using foldl_round_step_history [OF compl, of "start_session user_message cm"]
    by (simp add: history_def history_start_session [unfolded history_def])
  moreover have "model_calls ?s' = length tools + 1"
    using foldl_round_step_counts(1) [OF compl, of "start_session user_message cm"]
    by (simp add: model_calls_def trace_start_session)
  moreover have "tool_calls ?s' = length tools + 1"
    using foldl_round_step_counts(2) [OF compl, of "start_session user_message cm"]
    by (simp add: tool_calls_def trace_start_session)
  ultimately show ?thesis by blast
qed

theorem tool_exception_propagates_witness:
  "tool_request search_offline vet_request
   \<and> stop_reason toes_request = ''tool_use''
   \<and> find is_tool_use (response_content toes_request) =
         Some (ToolUseBlock ''toolu_01'' ''search_cat_facts'' [(''query'', PyStr ''toes'')])
   \<and> process_tool_call search_offline ''search_cat_facts'' [(''query'', PyStr ''toes'')] =
         Inl (ServiceError ''vector index unreachable'')
   \<and> (\<exists>s'. chatbot_interaction search_offline ''Is the vet free?'' None
               (map Inr ([vet_request] @ [toes_request]) @ [Inr toes_answer]) =
             Some (Raised (ServiceError ''vector index unreachable'') s')
          \<and> length (history s') = 3
          \<and> model_calls s' = 2
          \<and> tool_calls s' = 2)"
proof -
  have h1: "\<forall>r \<in> set [vet_request]. tool_request search_offline r"
    by (simp add: tool_request_def completes_def vet_request_def process_tool_call_def)
  have h2: "stop_reason toes_request = ''tool_use''"
    by (simp add: toes_request_def)
  have h3: "find is_tool_use (response_content toes_request) =
              Some (ToolUseBlock ''toolu_01'' ''search_cat_facts'' [(''query'', PyStr ''toes'')])"
    by (simp add: toes_request_def)
  have h4: "process_tool_call search_offline
              (block_name (ToolUseBlock ''toolu_01'' ''search_cat_facts'' [(''query'', PyStr ''toes'')]))
              (block_input (ToolUseBlock ''toolu_01'' ''search_cat_facts'' [(''query'', PyStr ''toes'')])) =
            Inl (ServiceError ''vector index unreachable'')"
    by (simp add: process_tool_call_def getitem_def search_offline_def)
  have len: "length (round_messages search_offline vet_request) = 2"
    using h1 by (simp add: tool_request_def length_round_messages)
  from tool_exception_propagates [OF h1 h2 h3 h4, of "''Is the vet free?''" None "[Inr toes_answer]"]
  show ?thesis
    using h1 h2 h3 h4 len by (auto simp: initial_history_def)
qed

section \<open>An unknown tool name\<close>

text \<open>
  C2: the code does not do what the claim says. For the tool name \<open>order_pizza\<close>, which
  is in none of the three branches, nothing raises and the conversation goes on, but no
  result that signals an unknown tool is made: \<open>process_tool_call\<close> falls off the end
  of its cascade and returns \<open>None\<close>, and the content of the tool result fed back to
  the model is the string \<open>'None'\<close>.
\<close>

theorem unknown_tool_feeds_back_none:
  "chatbot_interaction search_toes ''Order a pizza'' None [Inr pizza_request, Inr toes_answer] =
     Some (Returned (Some ''Eighteen.'')
       \<lparr>manager = \<lparr>conversation_history =
          [\<lparr>role = ''user'', content = Text ''Order a pizza''\<rparr>,
           \<lparr>role = ''assistant'', content = Blocks [ToolUseBlock ''toolu_02'' ''order_pizza'' []]\<rparr>,
           \<lparr>role = ''user'', content = Blocks [ToolResultBlock ''toolu_02'' ''None'']\<rparr>]\<rparr>,
        trace =
          [ModelCall [\<lparr>role = ''user'', content = Text ''Order a pizza''\<rparr>],
           ToolCall ''order_pizza'' [],
           ModelCall
             [\<lparr>role = ''user'', content = Text ''Order a pizza''\<rparr>,
              \<lparr>role = ''assistant'', content = Blocks [ToolUseBlock ''toolu_02'' ''order_pizza'' []]\<rparr>,
              \<lparr>role = ''user'', content = Blocks [ToolResultBlock ''toolu_02'' ''None'']\<rparr>]]\<rparr>)"
  by (simp add: run_simps pizza_request_def toes_answer_def)

text \<open>
  The other dispatcher of the repository has the \<open>else\<close> branch that this one lacks:
  for a name it does not know it returns a string that names the unknown tool.
\<close>

lemma process_tool_call_rag_unknown:
  assumes "tool_name \<noteq> ''search_pinecone''" and "tool_name \<noteq> ''read_full_document''"
  shows "process_tool_call_rag semantic_search read_full_document tool_name tool_input =
           Inr (PyStr (''Unknown tool: '' @ tool_name))"
  using assms by (simp add: process_tool_call_rag_def)

text \<open>
  The same holds of every name outside the three branches of \<open>agent_rag.ipynb\<close>, after
  any number of completed rounds: \<open>process_tool_call\<close> returns \<open>None\<close> without
  raising, the loop appends the assistant message and a tool result whose content is the
  string \<open>'None'\<close>, sends that history to the model and goes on with the next response.
\<close>

lemma unknown_tool_result_is_none:
  assumes "\<forall>r \<in> set tools. tool_request search r"
    and "stop_reason resp = ''tool_use''"
    and "find is_tool_use (response_content resp) = Some tu"
    and "block_name tu \<noteq> ''search_cat_facts''"
    and "block_name tu \<noteq> ''check_vet_availability''"
    and "block_name tu \<noteq> ''book_appointment''"
  shows "process_tool_call search (block_name tu) (block_input tu) = Inr PyNone
       \<and> (\<exists>s'. chatbot_interaction search user_message cm (map Inr (tools @ [resp, nxt]) @ rest) =
                  tool_loop search nxt s' rest
              \<and> history s' =
                  initial_history cm @ \<lparr>role = ''user'', content = Text user_message\<rparr>
                    # concat (map (round_messages search) tools)
                    @ [\<lparr>role = ''assistant'', content = Blocks (response_content resp)\<rparr>,
                       \<lparr>role = ''user'', content = Blocks [ToolResultBlock (block_id tu) ''None'']\<rparr>]
              \<and> last (trace s') = ModelCall (history s'))"
proof -
  let ?s0 = "start_session user_message cm"
  let ?s' = "foldl (round_step search) ?s0 (tools @ [resp])"
  have none: "process_tool_call search (block_name tu) (block_input tu) = Inr PyNone"
    using assms(4-6) by (simp add: process_tool_call_def)
  have compl: "completes search resp"
    using assms(3) none by (simp add: completes_def)
  have msgs: "round_messages search resp =
                [\<lparr>role = ''assistant'', content = Blocks (response_content resp)\<rparr>,
                 \<lparr>role = ''user'', content = Blocks [ToolResultBlock (block_id tu) ''None'']\<rparr>]"
    using assms(3) none by (simp add: round_messages_def)
  have all: "\<forall>r \<in> set (tools @ [resp]). tool_request search r"
    using assms(1,2) compl by (simp add: tool_request_def)
  then have all_compl: "\<forall>r \<in> set (tools @ [resp]). completes search r"
    by (simp add: tool_request_def)
  have "chatbot_interaction search user_message cm (map Inr (tools @ [resp, nxt]) @ rest) =
          tool_loop search nxt ?s' rest"
    using chatbot_interaction_prefix [OF all, of user_message cm nxt rest] by simp
  moreover have "history ?s' =
      initial_history cm @ \<lparr>role = ''user'', content = Text user_message\<rparr>
        # concat (map (round_messages search) tools)
        @ [\<lparr>role = ''assistant'', content = Blocks (response_content resp)\<rparr>,
           \<lparr>role = ''user'', content = Blocks [ToolResultBlock (block_id tu) ''None'']\<rparr>]"
    using foldl_round_step_history [OF all_compl, of ?s0] msgs
    by (simp add: history_start_session)
  moreover have "last (trace ?s') = ModelCall (history ?s')"
    using compl by (simp add: round_step_completes)
  ultimately show ?thesis using none by blast
qed

lemma unknown_tool_result_is_none_example:
  "tool_request search_toes vet_request
   \<and> stop_reason pizza_request = ''tool_use''
   \<and> find is_tool_use (response_content pizza_request) = Some (ToolUseBlock ''toolu_02'' ''order_pizza'' [])
   \<and> ''order_pizza'' \<noteq> ''search_cat_facts''
   \<and> ''order_pizza'' \<noteq> ''check_vet_availability''
   \<and> ''order_pizza'' \<noteq> ''book_appointment''
   \<and> process_tool_call search_toes ''order_pizza'' [] = Inr PyNone
   \<and> (\<exists>s'. chatbot_interaction search_toes ''Is the vet free?'' None
               (map Inr ([vet_request] @ [pizza_request, toes_answer]) @ []) =
             Some (Returned (Some ''Eighteen.'') s')
          \<and> last (history s') = \<lparr>role = ''user'', content = Blocks [ToolResultBlock ''toolu_02'' ''None'']\<rparr>
          \<and> last (trace s') = ModelCall (history s'))"
proof -
  have h1: "\<forall>r \<in> set [vet_request]. tool_request search_toes r"
    by (simp add: tool_request_def completes_def vet_request_def process_tool_call_def)
  have h2: "stop_reason pizza_request = ''tool_use''"
    by (simp add: pizza_request_def)
  have h3: "find is_tool_use (response_content pizza_request) = Some (ToolUseBlock ''toolu_02'' ''order_pizza'' [])"
    by (simp add: pizza_request_def)
  have h4: "block_name (ToolUseBlock ''toolu_02'' ''order_pizza'' []) \<noteq> ''search_cat_facts''"
    and h5: "block_name (ToolUseBlock ''toolu_02'' ''order_pizza'' []) \<noteq> ''check_vet_availability''"
    and h6: "block_name (ToolUseBlock ''toolu_02'' ''order_pizza'' []) \<noteq> ''book_appointment''"
    by simp_all
  have fin: "tool_loop search_toes toes_answer s [] = Some (Returned (Some ''Eighteen.'') s)" for s
    by (simp add: tool_loop.simps toes_answer_def final_response_def)
  from unknown_tool_result_is_none [OF h1 h2 h3 h4 h5 h6, where user_message = "''Is the vet free?''"
      and cm = None and nxt = toes_answer and rest = "[]"]
  show ?thesis
    using h1 h2 h3 fin by auto
qed

section \<open>Counting the rounds\<close>

text \<open>
  C3, as stated, fails: the script below has one response with stop reason
  \<open>tool_use\<close> followed by one with \<open>end_turn\<close>, so \<open>N = 1\<close>, yet the model is
  called once, not twice, because \<open>tool_input["time"]\<close> raises \<open>KeyError\<close> and the
  exception leaves the function.
\<close>

theorem round_count_counterexample:
  "chatbot_interaction search_toes ''Book Thursday'' None [Inr booking_without_time, Inr toes_answer] =
     Some (Raised (KeyError ''time'')
       \<lparr>manager = \<lparr>conversation_history = [\<lparr>role = ''user'', content = Text ''Book Thursday''\<rparr>]\<rparr>,
        trace = [ModelCall [\<lparr>role = ''user'', content = Text ''Book Thursday''\<rparr>],
                 ToolCall ''book_appointment'' [(''day'', PyStr ''Thursday'')]]\<rparr>)
   \<and> stop_reason booking_without_time = ''tool_use''
   \<and> stop_reason toes_answer = ''end_turn''
   \<and> model_calls
        \<lparr>manager = \<lparr>conversation_history = [\<lparr>role = ''user'', content = Text ''Book Thursday''\<rparr>]\<rparr>,
         trace = [ModelCall [\<lparr>role = ''user'', content = Text ''Book Thursday''\<rparr>],
                  ToolCall ''book_appointment'' [(''day'', PyStr ''Thursday'')]]\<rparr> = 1"
  by (simp add: run_simps booking_without_time_def toes_answer_def model_calls_def)

text \<open>
  C3, amended: when each of the \<open>N\<close> tool-requesting responses completes its round
  (it holds a tool-use block and \<open>process_tool_call\<close> returns for the first one) and
  the next response has another stop reason, \<open>chatbot_interaction\<close> returns, having
  called the model \<open>N + 1\<close> times and \<open>process_tool_call\<close> \<open>N\<close> times, with the
  history longer by \<open>1 + 2 N\<close> entries. With \<open>N = 0\<close> that is one call of the model,
  and the answer is the text of the response (of its first block, when that is a text block).
\<close>

theorem completed_rounds_counts:
  assumes "\<forall>r \<in> set tools. tool_request search r"
    and "stop_reason fin \<noteq> ''tool_use''"
  shows "\<exists>s'. chatbot_interaction search user_message cm (map Inr (tools @ [fin]) @ rest) =
                Some (Returned (final_response fin) s')
           \<and> model_calls s' = length tools + 1
           \<and> tool_calls s' = length tools
           \<and> length (history s') = length (initial_history cm) + 1 + 2 * length tools
           \<and> (\<forall>t bs. response_content fin = TextBlock t # bs \<longrightarrow> final_response fin = Some t)"
proof -
  let ?s0 = "start_session user_message cm"
  let ?s' = "foldl (round_step search) ?s0 tools"
  have compl: "\<forall>r \<in> set tools. completes search r"
    using assms(1) by (simp add: tool_request_def)
  have "chatbot_interaction search user_message cm (map Inr (tools @ [fin]) @ rest) =
          Some (Returned (final_response fin) ?s')"
    using chatbot_interaction_prefix [OF assms(1)] assms(2) by (simp add: tool_loop_final)
  moreover have "model_calls ?s' = length tools + 1"
    using foldl_round_step_counts(1) [OF compl, of ?s0]
    by (simp add: model_calls_def trace_start_session)
  moreover have "tool_calls ?s' = length tools"
    using foldl_round_step_counts(2) [OF compl, of ?s0]
    by (simp add: tool_calls_def trace_start_session)
  moreover have "length (history ?s') = length (initial_history cm) + 1 + 2 * length tools"
    using foldl_round_step_history [OF compl, of ?s0] length_concat_round_messages [OF compl]
    by (simp add: history_start_session)
  moreover have "\<forall>t bs. response_content fin = TextBlock t # bs \<longrightarrow> final_response fin = Some t"
    by (simp add: final_response_def)
  ultimately show ?thesis by blast
qed

theorem completed_rounds_counts_witness:
  "tool_request search_toes vet_request
   \<and> tool_request search_toes toes_request
   \<and> stop_reason toes_answer \<noteq> ''tool_use''
   \<and> response_content toes_answer = TextBlock ''Eighteen.'' # []
   \<and> (\<exists>s'. chatbot_interaction search_toes ''Is the vet free?'' None
               (map Inr ([vet_request, toes_request] @ [toes_answer]) @ []) =
             Some (Returned (Some ''Eighteen.'') s')
          \<and> model_calls s' = 3
          \<and> tool_calls s' = 2
          \<and> length (history s') = 5)"
proof -
  have h1: "\<forall>r \<in> set [vet_request, toes_request]. tool_request search_toes r"
    by (simp add: tool_request_def completes_def vet_request_def toes_request_def
        process_tool_call_def getitem_def search_toes_def)
  have h2: "stop_reason toes_answer \<noteq> ''tool_use''"
    by (simp add: toes_answer_def)
  have h3: "response_content toes_answer = TextBlock ''Eighteen.'' # []"
    by (simp add: toes_answer_def)
  from completed_rounds_counts [OF h1 h2, where user_message = "''Is the vet free?''"
      and cm = None and rest = "[]"]
  show ?thesis
    using h1 h2 h3 by (auto simp: initial_history_def)
qed

section \<open>The final answer\<close>

lemma final_response_first_text:
  "final_response resp =
     (case [t. TextBlock t \<leftarrow> response_content resp] of [] \<Rightarrow> None | t # ts \<Rightarrow> Some t)"
proof -
  have "map_option block_text (find has_text bs) =
          (case [t. TextBlock t \<leftarrow> bs] of [] \<Rightarrow> None | t # ts \<Rightarrow> Some t)" for bs
  proof (induction bs)
    case Nil
    show ?case by simp
  next
    case (Cons b bs)
    then show ?case by (cases b) simp_all
  qed
  then show ?thesis by (simp add: final_response_def)
qed

text \<open>
  C4: once the model answers with a stop reason other than \<open>tool_use\<close> (so also with
  the end of the turn), \<open>chatbot_interaction\<close> returns the text of the first text block
  of that response, and \<open>None\<close> when the response has no text block.
\<close>

theorem final_answer_is_first_text:
  assumes "\<forall>r \<in> set tools. tool_request search r"
    and "stop_reason fin \<noteq> ''tool_use''"
  shows "\<exists>s'. chatbot_interaction search user_message cm (map Inr (tools @ [fin]) @ rest) =
                Some (Returned
                  (case [t. TextBlock t \<leftarrow> response_content fin] of [] \<Rightarrow> None | t # ts \<Rightarrow> Some t) s')"
  using chatbot_interaction_prefix [OF assms(1), of user_message cm fin rest] assms(2)
  by (simp add: tool_loop_final final_response_first_text)

theorem final_answer_is_first_text_witness:
  "tool_request search_toes vet_request
   \<and> stop_reason two_texts_answer \<noteq> ''tool_use''
   \<and> (\<exists>s'. chatbot_interaction search_toes ''Book Thursday'' None
               (map Inr ([vet_request] @ [two_texts_answer]) @ []) =
             Some (Returned (Some ''Thursday is booked.'') s'))"
proof -
  have h1: "\<forall>r \<in> set [vet_request]. tool_request search_toes r"
    by (simp add: tool_request_def completes_def vet_request_def process_tool_call_def)
  have h2: "stop_reason two_texts_answer \<noteq> ''tool_use''"
    by (simp add: two_texts_answer_def)
  from final_answer_is_first_text [OF h1 h2, where user_message = "''Book Thursday''"
      and cm = None and rest = "[]"]
  show ?thesis
    using h1 h2 by (simp add: two_texts_answer_def)
qed

lemma no_text_block_returns_none:
  "chatbot_interaction search_toes ''Hello'' None [Inr silent_answer] =
     Some (Returned None
       \<lparr>manager = \<lparr>conversation_history = [\<lparr>role = ''user'', content = Text ''Hello''\<rparr>]\<rparr>,
        trace = [ModelCall [\<lparr>role = ''user'', content = Text ''Hello''\<rparr>]]\<rparr>)"
  by (simp add: run_simps silent_answer_def)

section \<open>Tool results in the history\<close>



text \<open>
  \<open>py_str\<close> on the results of the tools, against what Python prints for them.
\<close>

lemma py_str_check_vet_availability: "py_str check_vet_availability = availability_text"
  by code_simp

lemma py_str_book_appointment:
  "py_str (book_appointment (PyStr ''Thursday'') (PyStr ''12:00-14:00'')) = booking_text"
  by code_simp

lemma py_str_search_result:
  "py_str (PyList [PyStr ''Cats have five toes on each front paw.'']) =
     ''['' @ quoted ''Cats have five toes on each front paw.'' @ '']''"
  by code_simp

lemma py_str_escapes:
  "py_str (PyList [PyStr ([CHR 0x0A, CHR 0x27]), PyStr (''a'' @ [CHR 0x22] @ ''b''),
                   PyStr (''both'' @ [CHR 0x27, CHR 0x22]), PyInt (- 42), PyBool True, PyNone,
                   PyDict [(''k'', PyList [])]]) =
     ''['' @ [CHR 0x22, CHR 0x5C] @ ''n'' @ [CHR 0x27, CHR 0x22] @ '', '' @
     quoted (''a'' @ [CHR 0x22] @ ''b'') @ '', '' @
     quoted (''both'' @ [CHR 0x5C, CHR 0x27, CHR 0x22]) @ '', -42, True, None, {'' @
     quoted ''k'' @ '': []}]''"
  by code_simp

text \<open>
  C6, as stated, fails: not every tool round appends two messages. In the round below the
  first tool-use block asks for \<open>book_appointment\<close> without a day;
  \<open>tool_input["day"]\<close> raises \<open>KeyError\<close>, nothing is appended, and the second
  tool-use block, which could be served, is never looked at.
\<close>

theorem first_block_failure_counterexample:
  "chatbot_interaction search_toes ''Book 12:00'' None
     [Inr failing_first_block_request, Inr toes_answer] =
     Some (Raised (KeyError ''day'')
       \<lparr>manager = \<lparr>conversation_history = [\<lparr>role = ''user'', content = Text ''Book 12:00''\<rparr>]\<rparr>,
        trace = [ModelCall [\<lparr>role = ''user'', content = Text ''Book 12:00''\<rparr>],
                 ToolCall ''book_appointment'' [(''time'', PyStr ''12:00-14:00'')]]\<rparr>)"
  by (simp add: run_simps failing_first_block_request_def toes_answer_def)

text \<open>
  C6, amended: in every tool round that completes (the response holds a tool-use block
  and \<open>process_tool_call\<close> returns for the first one) only the first tool-use block of
  the response is served (one call of \<open>process_tool_call\<close>, with the name and input of
  that block, even if the response holds several), and then two messages are appended in
  this order: the assistant message with the whole content of the response, then a user
  message with a single tool-result block holding \<open>str\<close> of the tool's result.
\<close>

theorem tool_round_first_block_two_messages:
  assumes "\<forall>r \<in> set tools. tool_request search r"
  shows "\<exists>s'. chatbot_interaction search user_message cm (map Inr (tools @ [nxt]) @ rest) =
                tool_loop search nxt s' rest
           \<and> history s' =
               initial_history cm @ \<lparr>role = ''user'', content = Text user_message\<rparr>
                 # concat (map (round_messages search) tools)
           \<and> filter is_tool_call (trace s') = concat (map round_calls tools)
           \<and> (\<forall>r \<in> set tools. \<exists>pre i n inp post v.
                  response_content r = pre @ ToolUseBlock i n inp # post
                \<and> (\<forall>b \<in> set pre. \<not> is_tool_use b)
                \<and> process_tool_call search n inp = Inr v
                \<and> round_calls r = [ToolCall n inp]
                \<and> round_messages search r =
                    [\<lparr>role = ''assistant'', content = Blocks (response_content r)\<rparr>,
                     \<lparr>role = ''user'', content = Blocks [ToolResultBlock i (py_str v)]\<rparr>])"
proof -
  let ?s0 = "start_session user_message cm"
  let ?s' = "foldl (round_step search) ?s0 tools"
  have compl: "\<forall>r \<in> set tools. completes search r"
    using assms by (simp add: tool_request_def)
  have "chatbot_interaction search user_message cm (map Inr (tools @ [nxt]) @ rest) =
          tool_loop search nxt ?s' rest"
    by (rule chatbot_interaction_prefix [OF assms])
  moreover have "history ?s' =
      initial_history cm @ \<lparr>role = ''user'', content = Text user_message\<rparr>
        # concat (map (round_messages search) tools)"
    using foldl_round_step_history [OF compl, of ?s0] by (simp add: history_start_session)
  moreover have "filter is_tool_call (trace ?s') = concat (map round_calls tools)"
    using tool_calls_foldl_round_step [OF compl, of ?s0] by (simp add: trace_start_session)
  moreover have "\<exists>pre i n inp post v.
                  response_content r = pre @ ToolUseBlock i n inp # post
                \<and> (\<forall>b \<in> set pre. \<not> is_tool_use b)
                \<and> process_tool_call search n inp = Inr v
                \<and> round_calls r = [ToolCall n inp]
                \<and> round_messages search r =
                    [\<lparr>role = ''assistant'', content = Blocks (response_content r)\<rparr>,
                     \<lparr>role = ''user'', content = Blocks [ToolResultBlock i (py_str v)]\<rparr>]"
    if "r \<in> set tools" for r
  proof -
    from that compl have "completes search r" by simp
    from completes_shape [OF this] show ?thesis by blast
  qed
  ultimately show ?thesis by blast
qed

theorem tool_round_first_block_two_messages_witness:
  "tool_request search_toes vet_request
   \<and> (\<exists>s'. chatbot_interaction search_toes ''Is the vet free?'' None
               (map Inr ([vet_request] @ [toes_answer]) @ []) =
             Some (Returned (Some ''Eighteen.'') s')
          \<and> history s' =
              [\<lparr>role = ''user'', content = Text ''Is the vet free?''\<rparr>,
               \<lparr>role = ''assistant'',
                content = Blocks
                  [ToolUseBlock ''toolu_04'' ''check_vet_availability'' [],
                   ToolUseBlock ''toolu_05'' ''book_appointment''
                     [(''day'', PyStr ''Thursday''), (''time'', PyStr ''12:00-14:00'')]]\<rparr>,
               \<lparr>role = ''user'',
                content = Blocks [ToolResultBlock ''toolu_04'' availability_text]\<rparr>]
          \<and> filter is_tool_call (trace s') = [ToolCall ''check_vet_availability'' []])"
proof -
  have h1: "\<forall>r \<in> set [vet_request]. tool_request search_toes r"
    by (simp add: tool_request_def completes_def vet_request_def process_tool_call_def)
  have msgs: "round_messages search_toes vet_request =
        [\<lparr>role = ''assistant'',
          content = Blocks
            [ToolUseBlock ''toolu_04'' ''check_vet_availability'' [],
             ToolUseBlock ''toolu_05'' ''book_appointment''
               [(''day'', PyStr ''Thursday''), (''time'', PyStr ''12:00-14:00'')]]\<rparr>,
         \<lparr>role = ''user'', content = Blocks [ToolResultBlock ''toolu_04'' availability_text]\<rparr>]"
    by (simp add: round_messages_def vet_request_def process_tool_call_def
        py_str_check_vet_availability)
  have calls: "round_calls vet_request = [ToolCall ''check_vet_availability'' []]"
    by (simp add: round_calls_def vet_request_def)
  have fin: "tool_loop search_toes toes_answer s [] = Some (Returned (Some ''Eighteen.'') s)" for s
    by (simp add: tool_loop.simps toes_answer_def final_response_def)
  from tool_round_first_block_two_messages [OF h1, where user_message = "''Is the vet free?''"
      and cm = None and nxt = toes_answer and rest = "[]"]
  obtain s' where
    "chatbot_interaction search_toes ''Is the vet free?'' None
       (map Inr ([vet_request] @ [toes_answer]) @ []) = tool_loop search_toes toes_answer s' []"
    "history s' = initial_history None @ \<lparr>role = ''user'', content = Text ''Is the vet free?''\<rparr>
                 # concat (map (round_messages search_toes) [vet_request])"
    "filter is_tool_call (trace s') = concat (map round_calls [vet_request])"
    by blast
  then show ?thesis
    using h1 msgs calls fin by (auto simp: initial_history_def)
qed

text \<open>
  C7, as stated, fails in its last part: the returned history does not hold every
  assistant message of the exchange. The final response of the model is returned as the
  answer and never appended; with no tool round the history holds the user message only.
\<close>

theorem final_reply_not_appended_counterexample:
  "chatbot_interaction search_toes ''How many toes?'' None [Inr toes_answer] =
     Some (Returned (Some ''Eighteen.'')
       \<lparr>manager = \<lparr>conversation_history = [\<lparr>role = ''user'', content = Text ''How many toes?''\<rparr>]\<rparr>,
        trace = [ModelCall [\<lparr>role = ''user'', content = Text ''How many toes?''\<rparr>]]\<rparr>)
   \<and> \<lparr>role = ''assistant'', content = Blocks (response_content toes_answer)\<rparr>
         \<notin> set [\<lparr>role = ''user'', content = Text ''How many toes?''\<rparr>]"
  by (simp add: run_simps toes_answer_def)

text \<open>
  C7, amended: the history is only appended to. Whenever \<open>chatbot_interaction\<close>
  returns or raises, the history it started from is a prefix of the history it leaves,
  every entry unchanged and in its place, and what follows is the user message and then
  the assistant message and the tool-result message of each completed round, in order.
  When it returns, these are the rounds of all responses before the final one, and
  nothing else: the final response is the answer and is not appended, so the history has
  grown by one entry plus two for each round. Every list of messages sent to the model on
  the way extends the initial history and is a prefix of the final one.
\<close>

theorem history_only_appended:
  assumes "chatbot_interaction search user_message cm sc = Some out"
  shows "prefix (initial_history cm) (history (outcome_session out))
       \<and> (\<exists>rs. prefix (map Inr rs) sc
              \<and> history (outcome_session out) =
                  initial_history cm @ \<lparr>role = ''user'', content = Text user_message\<rparr>
                    # concat (map (round_messages search) rs)
              \<and> (\<forall>a s'. out = Returned a s' \<longrightarrow>
                    (\<exists>fin rest. sc = map Inr (rs @ [fin]) @ rest \<and> stop_reason fin \<noteq> ''tool_use''
                       \<and> a = final_response fin
                       \<and> length (history s') = length (initial_history cm) + 1 + 2 * length rs)))
       \<and> (\<forall>m. ModelCall m \<in> set (trace (outcome_session out)) \<longrightarrow>
              prefix (initial_history cm) m \<and> prefix m (history (outcome_session out)))"
proof -
  let ?new = "\<lambda>rs. \<lparr>role = ''user'', content = Text user_message\<rparr>
                     # concat (map (round_messages search) rs)"
  have main: "\<exists>rs. prefix (map Inr rs) sc
              \<and> history (outcome_session out) = initial_history cm @ ?new rs
              \<and> (\<forall>a s'. out = Returned a s' \<longrightarrow>
                    (\<exists>fin rest. sc = map Inr (rs @ [fin]) @ rest \<and> stop_reason fin \<noteq> ''tool_use''
                       \<and> a = final_response fin
                       \<and> length (history s') = length (initial_history cm) + 1 + 2 * length rs))"
  proof (cases out)
    case (Returned a s')
    from chatbot_interaction_returned [OF assms [unfolded Returned]] obtain rs fin rest where
      rs: "sc = map Inr (rs @ [fin]) @ rest" "\<forall>r \<in> set rs. tool_request search r"
        "stop_reason fin \<noteq> ''tool_use''"
        "s' = foldl (round_step search) (start_session user_message cm) rs"
        "a = final_response fin"
      by blast
    have compl: "\<forall>r \<in> set rs. completes search r"
      using rs(2) by (simp add: tool_request_def)
    have p: "prefix (map Inr rs) sc"
      using rs(1) by (simp add: prefix_def)
    have h: "history (outcome_session out) = initial_history cm @ ?new rs"
      using foldl_round_step_history [OF compl, of "start_session user_message cm"] rs(4) Returned
      by (simp add: history_start_session)
    have len: "length (history s') = length (initial_history cm) + 1 + 2 * length rs"
      using h Returned length_concat_round_messages [OF compl] by simp
    have "\<exists>fin rest. sc = map Inr (rs @ [fin]) @ rest \<and> stop_reason fin \<noteq> ''tool_use''
                       \<and> a = final_response fin
                       \<and> length (history s') = length (initial_history cm) + 1 + 2 * length rs"
      using rs(1,3,5) len by blast
    then have f: "\<forall>a s'. out = Returned a s' \<longrightarrow>
               (\<exists>fin rest. sc = map Inr (rs @ [fin]) @ rest \<and> stop_reason fin \<noteq> ''tool_use''
                       \<and> a = final_response fin
                       \<and> length (history s') = length (initial_history cm) + 1 + 2 * length rs)"
      using Returned by simp
    show ?thesis
      by (rule exI [of _ rs]) (rule conjI [OF p conjI [OF h f]])
  next
    case (Raised e s')
    from chatbot_interaction_transcript [OF assms] obtain rs where
      p: "prefix (map Inr rs) sc" and h: "history (outcome_session out) = initial_history cm @ ?new rs"
      by blast
    have f: "\<forall>a s'. out = Returned a s' \<longrightarrow>
               (\<exists>fin rest. sc = map Inr (rs @ [fin]) @ rest \<and> stop_reason fin \<noteq> ''tool_use''
                       \<and> a = final_response fin
                       \<and> length (history s') = length (initial_history cm) + 1 + 2 * length rs)"
      using Raised by simp
    show ?thesis
      by (rule exI [of _ rs]) (rule conjI [OF p conjI [OF h f]])
  qed
  then obtain rs where "history (outcome_session out) = initial_history cm @ ?new rs"
    by blast
  then have pre: "prefix (initial_history cm) (history (outcome_session out))"
    by simp
  have snaps: "\<forall>m. ModelCall m \<in> set (trace (outcome_session out)) \<longrightarrow>
              prefix (initial_history cm) m \<and> prefix m (history (outcome_session out))"
    using snapshots_grow_chatbot_interaction [OF assms] by (simp add: snapshots_grow_def)
  show ?thesis
    by (rule conjI [OF pre conjI [OF main snaps]])
qed

theorem history_only_appended_witness:
  "chatbot_interaction search_toes ''Is the vet free?'' (Some \<lparr>conversation_history = earlier_turn\<rparr>)
     [Inr vet_request, Inr toes_answer] =
     Some (Returned (Some ''Eighteen.'')
            (foldl (round_step search_toes)
               (start_session ''Is the vet free?'' (Some \<lparr>conversation_history = earlier_turn\<rparr>))
               [vet_request]))
   \<and> prefix earlier_turn
        (history (foldl (round_step search_toes)
           (start_session ''Is the vet free?'' (Some \<lparr>conversation_history = earlier_turn\<rparr>))
           [vet_request]))
   \<and> history (foldl (round_step search_toes)
        (start_session ''Is the vet free?'' (Some \<lparr>conversation_history = earlier_turn\<rparr>))
        [vet_request]) =
       earlier_turn @
        [\<lparr>role = ''user'', content = Text ''Is the vet free?''\<rparr>,
         \<lparr>role = ''assistant'', content = Blocks (response_content vet_request)\<rparr>,
         \<lparr>role = ''user'', content = Blocks [ToolResultBlock ''toolu_04'' (py_str check_vet_availability)]\<rparr>]"
proof -
  let ?cm = "Some \<lparr>conversation_history = earlier_turn\<rparr>"
  have h1: "\<forall>r \<in> set [vet_request]. tool_request search_toes r"
    by (simp add: tool_request_def completes_def vet_request_def process_tool_call_def)
  then have compl: "completes search_toes vet_request"
    by (simp add: tool_request_def)
  have run: "chatbot_interaction search_toes ''Is the vet free?'' ?cm [Inr vet_request, Inr toes_answer] =
     Some (Returned (Some ''Eighteen.'')
            (foldl (round_step search_toes) (start_session ''Is the vet free?'' ?cm) [vet_request]))"
    using chatbot_interaction_prefix [OF h1, of "''Is the vet free?''" ?cm toes_answer "[]"]
    by (simp add: tool_loop.simps toes_answer_def final_response_def)
  have msgs: "round_messages search_toes vet_request =
        [\<lparr>role = ''assistant'', content = Blocks (response_content vet_request)\<rparr>,
         \<lparr>role = ''user'', content = Blocks [ToolResultBlock ''toolu_04'' (py_str check_vet_availability)]\<rparr>]"
    by (simp add: round_messages_def vet_request_def process_tool_call_def)
  have hist: "history (foldl (round_step search_toes) (start_session ''Is the vet free?'' ?cm) [vet_request]) =
       earlier_turn @
        [\<lparr>role = ''user'', content = Text ''Is the vet free?''\<rparr>,
         \<lparr>role = ''assistant'', content = Blocks (response_content vet_request)\<rparr>,
         \<lparr>role = ''user'', content = Blocks [ToolResultBlock ''toolu_04'' (py_str check_vet_availability)]\<rparr>]"
    using compl msgs by (simp add: round_step_completes history_start_session initial_history_def)
  from history_only_appended [OF run]
  have "prefix earlier_turn
        (history (foldl (round_step search_toes) (start_session ''Is the vet free?'' ?cm) [vet_request]))"
    by (simp add: initial_history_def)
  with run hist show ?thesis by blast
qed

section \<open>A tool request without a tool-use block\<close>

text \<open>
  C9: a response with stop reason \<open>tool_use\<close> and no tool-use block makes
  \<open>next\<close> raise \<open>StopIteration\<close>, which is not caught: \<open>chatbot_interaction\<close>
  raises it, appends nothing for that response and calls neither the tool nor the model
  again.
\<close>

theorem missing_tool_use_block_raises:
  assumes "\<forall>r \<in> set tools. tool_request search r"
    and "stop_reason resp = ''tool_use''"
    and "\<forall>b \<in> set (response_content resp). \<not> is_tool_use b"
  shows "\<exists>s'. chatbot_interaction search user_message cm (map Inr (tools @ [resp]) @ rest) =
                Some (Raised StopIteration s')
           \<and> history s' = initial_history cm @ \<lparr>role = ''user'', content = Text user_message\<rparr>
                             # concat (map (round_messages search) tools)
           \<and> model_calls s' = length tools + 1
           \<and> tool_calls s' = length tools"
proof -
  let ?s0 = "start_session user_message cm"
  let ?s' = "foldl (round_step search) ?s0 tools"
  have compl: "\<forall>r \<in> set tools. completes search r"
    using assms(1) by (simp add: tool_request_def)
  have "find is_tool_use (response_content resp) = None"
    using assms(3) by (simp add: find_None_iff)
  then have "tool_round search resp ?s' = Inl (StopIteration, ?s')"
    by (simp add: tool_round_def)
  then have "tool_loop search resp ?s' rest = Some (Raised StopIteration ?s')"
    using assms(2) by (subst tool_loop.simps) simp
  then have "chatbot_interaction search user_message cm (map Inr (tools @ [resp]) @ rest) =
               Some (Raised StopIteration ?s')"
    using chatbot_interaction_prefix [OF assms(1)] by simp
  moreover have "history ?s' = initial_history cm @ \<lparr>role = ''user'', content = Text user_message\<rparr>
                             # concat (map (round_messages search) tools)"
    using foldl_round_step_history [OF compl, of ?s0] by (simp add: history_start_session)
  moreover have "model_calls ?s' = length tools + 1"
    using foldl_round_step_counts(1) [OF compl, of ?s0]
    by (simp add: model_calls_def trace_start_session)
  moreover have "tool_calls ?s' = length tools"
    using foldl_round_step_counts(2) [OF compl, of ?s0]
    by (simp add: tool_calls_def trace_start_session)
  ultimately show ?thesis by blast
qed

theorem missing_tool_use_block_raises_witness:
  "tool_request search_toes vet_request
   \<and> stop_reason empty_tool_request = ''tool_use''
   \<and> \<not> is_tool_use (TextBlock ''Let me check.'')
   \<and> response_content empty_tool_request = [TextBlock ''Let me check.'']
   \<and> (\<exists>s'. chatbot_interaction search_toes ''Is the vet free?'' None
               (map Inr ([vet_request] @ [empty_tool_request]) @ [Inr toes_answer]) =
             Some (Raised StopIteration s')
          \<and> length (history s') = 3
          \<and> model_calls s' = 2
          \<and> tool_calls s' = 1)"
proof -
  have h1: "\<forall>r \<in> set [vet_request]. tool_request search_toes r"
    by (simp add: tool_request_def completes_def vet_request_def process_tool_call_def)
  have h2: "stop_reason empty_tool_request = ''tool_use''"
    by (simp add: empty_tool_request_def)
  have h3: "\<forall>b \<in> set (response_content empty_tool_request). \<not> is_tool_use b"
    by (simp add: empty_tool_request_def)
  have len: "length (round_messages search_toes vet_request) = 2"
    using h1 by (simp add: tool_request_def length_round_messages)
  from missing_tool_use_block_raises [OF h1 h2 h3, where user_message = "''Is the vet free?''"
      and cm = None and rest = "[Inr toes_answer]"]
  show ?thesis
    using h1 h2 len by (auto simp: initial_history_def empty_tool_request_def)
qed

section \<open>The router\<close>

lemma sublist_map_iff:
  "sublist ys (map f xs) \<longleftrightarrow> (\<exists>w. sublist w xs \<and> map f w = ys)"
proof
  assume "sublist ys (map f xs)"
  then obtain ps ss where "map f xs = ps @ ys @ ss"
    by (auto simp: sublist_def)
  then have "\<exists>us vs. xs = us @ vs \<and> ps = map f us \<and> ys @ ss = map f vs"
    by (simp only: map_eq_append_conv)
  then obtain us vs where split1: "xs = us @ vs" "ys @ ss = map f vs"
    by blast
  from split1(2) have "\<exists>w t. vs = w @ t \<and> ys = map f w \<and> ss = map f t"
    by (simp only: append_eq_map_conv)
  then obtain w t where split2: "vs = w @ t" "ys = map f w"
    by blast
  have "sublist w xs"
    unfolding sublist_def using split1(1) split2(1) by blast
  with split2(2) show "\<exists>w. sublist w xs \<and> map f w = ys"
    by blast
next
  assume "\<exists>w. sublist w xs \<and> map f w = ys"
  then obtain w ps ss where "xs = ps @ w @ ss" "map f w = ys"
    by (auto simp: sublist_def)
  then have "map f xs = map f ps @ ys @ map f ss" by simp
  then show "sublist ys (map f xs)"
    unfolding sublist_def by blast
qed

lemma of_char_lower_char:
  "(of_char (lower_char c) :: nat) =
     (if (65 \<le> (of_char c :: nat) \<and> (of_char c :: nat) \<le> 90)
          \<or> (192 \<le> (of_char c :: nat) \<and> (of_char c :: nat) \<le> 222 \<and> (of_char c :: nat) \<noteq> 215)
      then of_char c + 32 else of_char c)"
  by (auto simp: lower_char_def Let_def)

lemma lower_char_pair:
  assumes "(of_char u :: nat) + 32 = of_char l"
    and "97 \<le> (of_char l :: nat)" and "(of_char l :: nat) \<le> 122"
  shows "lower_char a = l \<longleftrightarrow> a = l \<or> a = u"
proof -
  have "lower_char a = l \<longleftrightarrow> (of_char (lower_char a) :: nat) = of_char l"
    by (simp only: of_char_eq_iff)
  also have "\<dots> \<longleftrightarrow> (of_char a :: nat) = of_char l \<or> (of_char a :: nat) = of_char u"
  proof -
    define na nl nu where "na = (of_char a :: nat)" and "nl = (of_char l :: nat)"
      and "nu = (of_char u :: nat)"
    have "nu + 32 = nl" "97 \<le> nl" "nl \<le> 122"
      using assms by (simp_all only: na_def nl_def nu_def)
    then have "(if (65 \<le> na \<and> na \<le> 90) \<or> (192 \<le> na \<and> na \<le> 222 \<and> na \<noteq> 215)
                then na + 32 else na) = nl \<longleftrightarrow> na = nl \<or> na = nu"
      by auto
    then show ?thesis
      by (simp only: of_char_lower_char na_def nl_def nu_def)
  qed
  finally show ?thesis by (simp only: of_char_eq_iff)
qed

lemma lower_char_underscore: "lower_char a = CHR ''_'' \<longleftrightarrow> a = CHR ''_''"
proof -
  have "lower_char a = CHR ''_'' \<longleftrightarrow> (of_char (lower_char a) :: nat) = of_char CHR ''_''"
    by (simp only: of_char_eq_iff)
  also have "\<dots> \<longleftrightarrow> (of_char a :: nat) = of_char CHR ''_''"
    unfolding of_char_lower_char by auto
  finally show ?thesis by (simp only: of_char_eq_iff)
qed

lemma folds_to_cat_knowledge:
  "list_all2 (\<lambda>l u. \<forall>a. lower_char a = l \<longleftrightarrow> a = l \<or> a = u) ''cat_knowledge'' ''CAT_KNOWLEDGE''"
  by (simp add: lower_char_underscore
      lower_char_pair [of "CHR ''C''" "CHR ''c''"] lower_char_pair [of "CHR ''A''" "CHR ''a''"]
      lower_char_pair [of "CHR ''T''" "CHR ''t''"] lower_char_pair [of "CHR ''K''" "CHR ''k''"]
      lower_char_pair [of "CHR ''N''" "CHR ''n''"] lower_char_pair [of "CHR ''O''" "CHR ''o''"]
      lower_char_pair [of "CHR ''W''" "CHR ''w''"] lower_char_pair [of "CHR ''L''" "CHR ''l''"]
      lower_char_pair [of "CHR ''E''" "CHR ''e''"] lower_char_pair [of "CHR ''D''" "CHR ''d''"]
      lower_char_pair [of "CHR ''G''" "CHR ''g''"])

lemma lower_eq_cat_knowledge:
  "lower w = ''cat_knowledge'' \<longleftrightarrow>
     length w = 13 \<and> (\<forall>i<13. w ! i = ''cat_knowledge'' ! i \<or> w ! i = ''CAT_KNOWLEDGE'' ! i)"
proof -
  have fold: "lower_char a = ''cat_knowledge'' ! i \<longleftrightarrow>
                a = ''cat_knowledge'' ! i \<or> a = ''CAT_KNOWLEDGE'' ! i" if "i < 13" for i a
    using folds_to_cat_knowledge that unfolding list_all2_conv_all_nth by simp
  have "lower w = ''cat_knowledge'' \<longleftrightarrow>
          length w = 13 \<and> (\<forall>i<13. lower_char (w ! i) = ''cat_knowledge'' ! i)"
    unfolding lower_def list_eq_iff_nth_eq by (auto simp del: nth_Cons_numeral)
  also have "\<dots> \<longleftrightarrow> length w = 13 \<and> (\<forall>i<13. w ! i = ''cat_knowledge'' ! i \<or> w ! i = ''CAT_KNOWLEDGE'' ! i)"
    using fold by blast
  finally show ?thesis .
qed

text \<open>
  C10: on a state with at least one message, and whatever message the router model
  replies with (a text of code points below 256), \<open>route_question\<close> raises nothing and
  returns one of two strings: \<open>cat_knowledge\<close> when the reply holds thirteen
  characters in a row of which each is the character of \<open>cat_knowledge\<close> or of
  \<open>CAT_KNOWLEDGE\<close> at the same place, and \<open>general_knowledge\<close> otherwise.
\<close>

theorem route_question_routes:
  assumes "messages state \<noteq> []"
    and "router_model [HumanMessage (evaluation_prompt (message_content (last (messages state))))] = Inr reply"
  shows "route_question router_model state =
           Inr (if \<exists>w. sublist w (message_content reply) \<and> length w = 13
                      \<and> (\<forall>i<13. w ! i = ''cat_knowledge'' ! i \<or> w ! i = ''CAT_KNOWLEDGE'' ! i)
                then ''cat_knowledge'' else ''general_knowledge'')"
proof -
  have "sublist ''cat_knowledge'' (lower (message_content reply)) \<longleftrightarrow>
          (\<exists>w. sublist w (message_content reply) \<and> lower w = ''cat_knowledge'')"
    unfolding lower_def by (rule sublist_map_iff)
  then have "sublist ''cat_knowledge'' (lower (message_content reply)) \<longleftrightarrow>
          (\<exists>w. sublist w (message_content reply) \<and> length w = 13
                \<and> (\<forall>i<13. w ! i = ''cat_knowledge'' ! i \<or> w ! i = ''CAT_KNOWLEDGE'' ! i))"
    by (simp only: lower_eq_cat_knowledge)
  then show ?thesis
    using assms by (simp only: route_question_def Let_def) simp
qed

theorem route_question_routes_witness:
  "messages \<lparr>messages = [HumanMessage ''Do cats purr?'']\<rparr> \<noteq> []
   \<and> router_says ''Route: cAt_KNOWledge.''
        [HumanMessage (evaluation_prompt (message_content (last (messages \<lparr>messages = [HumanMessage ''Do cats purr?'']\<rparr>))))] =
       Inr (AIMessage ''Route: cAt_KNOWledge.'')
   \<and> route_question (router_says ''Route: cAt_KNOWledge.'') \<lparr>messages = [HumanMessage ''Do cats purr?'']\<rparr> =
       Inr ''cat_knowledge''"
proof -
  have h1: "messages \<lparr>messages = [HumanMessage ''Do cats purr?'']\<rparr> \<noteq> []"
    by simp
  have h2: "router_says ''Route: cAt_KNOWledge.''
        [HumanMessage (evaluation_prompt (message_content (last (messages \<lparr>messages = [HumanMessage ''Do cats purr?'']\<rparr>))))] =
       Inr (AIMessage ''Route: cAt_KNOWledge.'')"
    by (simp add: router_says_def)
  have part: "sublist ''cAt_KNOWledge'' ''Route: cAt_KNOWledge.''"
    by code_simp
  have "lower ''cAt_KNOWledge'' = ''cat_knowledge''"
    by code_simp
  then have "length ''cAt_KNOWledge'' = 13
               \<and> (\<forall>i<13. ''cAt_KNOWledge'' ! i = ''cat_knowledge'' ! i
                          \<or> ''cAt_KNOWledge'' ! i = ''CAT_KNOWLEDGE'' ! i)"
    by (rule lower_eq_cat_knowledge [THEN iffD1])
  with part have c: "\<exists>w. sublist w (message_content (AIMessage ''Route: cAt_KNOWledge.'')) \<and> length w = 13
                      \<and> (\<forall>i<13. w ! i = ''cat_knowledge'' ! i \<or> w ! i = ''CAT_KNOWLEDGE'' ! i)"
    by (intro exI [of _ "''cAt_KNOWledge''"]) (simp only: lc_message.sel, blast)
  have route: "route_question (router_says ''Route: cAt_KNOWledge.'') \<lparr>messages = [HumanMessage ''Do cats purr?'']\<rparr> =
       Inr ''cat_knowledge''"
    using route_question_routes [where router_model = "router_says ''Route: cAt_KNOWledge.''"
      and state = "\<lparr>messages = [HumanMessage ''Do cats purr?'']\<rparr>"
      and reply = "AIMessage ''Route: cAt_KNOWledge.''", OF h1 h2] c
    by (simp only: if_True)
  show ?thesis
    by (rule conjI [OF h1 conjI [OF h2 route]])
qed

lemma route_question_other_word_example:
  "route_question (router_says ''This is about cats, I know ledges.'')
     \<lparr>messages = [HumanMessage ''Do cats purr?'']\<rparr> = Inr ''general_knowledge''"
  by code_simp

lemma route_question_general_example:
  "route_question (router_says ''general_knowledge'') \<lparr>messages = [HumanMessage ''What is 2 + 2?'']\<rparr> =
     Inr ''general_knowledge''"
  by code_simp

lemma route_question_empty_state:
  "route_question router_model \<lparr>messages = []\<rparr> = Inl IndexError"
  by (simp add: route_question_def)

section \<open>The chunker\<close>










end
